theory Spec2Isabelle
  imports Main "HOL-Library.Word" "HOL-Library.Multiset"
begin

section \<open>The msocks session (src/msocks/session.go)\<close>

text \<open>
  A shallow embedding of \<^verbatim>\<open>Session\<close>: the port table, the allocation of stream ids,
  the read loop and its dispatch, and the DNS tunnel. A method that mutates the session
  takes the session and returns the new one. Logging and the two speed counters' \<^verbatim>\<open>Add\<close>
  calls have no effect on anything modelled here and are left out.

  What a call can do besides returning is an \<open>outcome\<close>:
  \<^item> \<open>Blocked\<close>: the call never returns. \<^verbatim>\<open>plock\<close> is a \<^verbatim>\<open>sync.RWMutex\<close>; three methods return
    early without \<^verbatim>\<open>Unlock\<close>, after which the mutex stays write-locked for good (no other
    code unlocks it) and every later \<^verbatim>\<open>Lock\<close> or \<^verbatim>\<open>RLock\<close> waits forever. The read loop is
    also \<open>Blocked\<close> when the carrier delivers nothing more.
  \<^item> \<open>Panicked\<close>: a Go run-time panic (an index out of range).
  \<^item> \<open>Returns v\<close>: the call returns \<open>v\<close>.
  The write mutex \<^verbatim>\<open>wlock\<close> is released on every path of \<^verbatim>\<open>SendFrame\<close>, so it is always free
  between calls and is not part of the state.
\<close>

type_synonym uint16 = "16 word"
type_synonym bytes = "8 word list"
type_synonym IP = bytes

datatype 'a outcome = Blocked | Panicked | Returns 'a

datatype error =
    ErrIdExist
  | ErrStreamNotExist
  | ErrDnsMsgIllegal
  | ErrNoDnsServer
  | ErrUnexpectedPkg
  | ErrRunOutOfStreamId \<comment> \<open>\<^verbatim>\<open>errors.New("run out of stream id")\<close>\<close>
  | ErrPortNotExist uint16 \<comment> \<open>\<^verbatim>\<open>fmt.Errorf("streamid(%d) not exist.", streamid)\<close>\<close>
  | ErrShortWrite \<comment> \<open>\<^verbatim>\<open>io.ErrShortWrite\<close>\<close>
  | EOF \<comment> \<open>\<^verbatim>\<open>io.EOF\<close>\<close>
  | ErrStatus \<comment> \<open>the error of a refused \<^verbatim>\<open>CheckAndSetStatus\<close>\<close>
  | ErrOther string \<comment> \<open>any error of a library or of the carrier\<close>

subsection \<open>Frames, streams and frame senders\<close>

text \<open>
  Modelled from the spec: the stream states of section 4.2. The declaration is not in
  the source files at hand; the session uses \<^verbatim>\<open>ST_UNKNOWN\<close>, \<^verbatim>\<open>ST_SYN_RECV\<close> and \<^verbatim>\<open>ST_EST\<close>.
\<close>

datatype Status =
  ST_UNKNOWN | ST_SYN_SENT | ST_SYN_RECV | ST_EST | ST_FIN_SENT | ST_FIN_RECV | ST_CLOSED

text \<open>
  Modelled from the spec: the error codes of a RESULT frame (section 3). The constants
  are not in the source files at hand.
\<close>

datatype Errno = ERR_NONE | ERR_IDEXIST | ERR_CONNFAILED | ERR_AUTH | ERR_TIMEOUT

text \<open>
  Modelled from the spec: the frame kinds of section 3, each with its streamid and
  payload. The frame types are not in the source files at hand. \<open>FrameOther\<close> stands for
  a value of any other type that implements \<^verbatim>\<open>Frame\<close> (the \<^verbatim>\<open>default\<close> branch of the type
  switch in \<^verbatim>\<open>Run\<close>).
\<close>

datatype Frame =
    FrameSyn uint16 string string
  | FrameResult uint16 Errno
  | FrameData uint16 bytes
  | FrameWnd uint16 "32 word"
  | FrameFin uint16
  | FrameRst uint16
  | FramePing uint16
  | FrameDns uint16 bytes
  | FrameSpam uint16 bytes
  | FrameOther uint16

text \<open>
  Modelled from the spec: every frame carries a streamid in its header (section 3);
  \<^verbatim>\<open>GetStreamid\<close> reads it.
\<close>

fun GetStreamid :: "Frame \<Rightarrow> uint16" where
  "GetStreamid (FrameSyn i _ _) = i"
| "GetStreamid (FrameResult i _) = i"
| "GetStreamid (FrameData i _) = i"
| "GetStreamid (FrameWnd i _) = i"
| "GetStreamid (FrameFin i) = i"
| "GetStreamid (FrameRst i) = i"
| "GetStreamid (FramePing i) = i"
| "GetStreamid (FrameDns i _) = i"
| "GetStreamid (FrameSpam i _) = i"
| "GetStreamid (FrameOther i) = i"

text \<open>
  Modelled from the spec: a stream (\<^verbatim>\<open>Conn\<close>) with the fields of section 3 that the session
  reads or sets. The type is not in the source files at hand.
\<close>

record Conn =
  streamid :: uint16
  network :: string
  address :: string
  status :: Status

text \<open>
  Modelled from the spec: \<^verbatim>\<open>NewConn\<close> is not in the source files at hand. A stream starts
  its life in \<open>ST_UNKNOWN\<close> (section 4.2). The session argument of \<^verbatim>\<open>NewConn\<close> is the
  session that owns the port table and is not a field of the model.
\<close>

definition NewConn :: "uint16 \<Rightarrow> string \<Rightarrow> string \<Rightarrow> Conn" where
  "NewConn i n a = \<lparr>streamid = i, network = n, address = a, status = ST_UNKNOWN\<rparr>"

text \<open>
  Modelled from the spec: \<^verbatim>\<open>CheckAndSetStatus\<close> is not in the source files at hand. It is
  "the atomic transition primitive; a transition from a non-matching state is reported
  as an error and closes the stream" (section 4.2).
\<close>

definition CheckAndSetStatus :: "Status \<Rightarrow> Status \<Rightarrow> Conn \<Rightarrow> error option \<times> Conn" where
  "CheckAndSetStatus old new c =
     (if status c = old then (None, c\<lparr>status := new\<rparr>)
      else (Some ErrStatus, c\<lparr>status := ST_CLOSED\<rparr>))"

text \<open>
  The two implementations of \<^verbatim>\<open>FrameSender\<close> that the session stores in its port table:
  a stream and the one-shot channel of a DNS lookup. The table holds no nil interface
  value: every caller in the repository passes a pointer it has just created.
\<close>

datatype FrameSender = FsConn Conn | FsChan

subsection \<open>The session record\<close>

text \<open>
  \<open>wire\<close> is the carrier seen from this side: the frames handed to \<^verbatim>\<open>Conn.Write\<close>, in
  order. \<open>conn_closed\<close> says that the carrier has been closed. \<open>plock\<close> is \<open>True\<close> when
  the port-table mutex is held.
\<close>

record Session =
  wire :: "Frame list"
  conn_closed :: bool
  closed :: bool
  plock :: bool
  next_id :: uint16
  ports :: "uint16 \<rightharpoonup> FrameSender"

definition NewSession :: "uint16 \<Rightarrow> Session" where
  "NewSession nid =
     \<lparr>wire = [], conn_closed = False, closed = False, plock = False,
      next_id = nid, ports = Map.empty\<rparr>"

subsection \<open>The port table\<close>

text \<open>
  The scan of \<^verbatim>\<open>PutIntoNextId\<close>: while the slot at \<^verbatim>\<open>next_id\<close> is taken, add 1 to \<^verbatim>\<open>next_id\<close>
  (a \<^verbatim>\<open>uint16\<close>, so it wraps) and give up when it is back at \<^verbatim>\<open>startid\<close>. \<open>None\<close> is the
  early return; \<open>Some i\<close> is the value of \<^verbatim>\<open>next_id\<close> when the loop ends.
\<close>

function scan :: "(uint16 \<rightharpoonup> FrameSender) \<Rightarrow> uint16 \<Rightarrow> uint16 \<Rightarrow> uint16 option" where
  "scan ps startid nid =
     (if ps nid \<noteq> None
      then (if nid + 1 = startid then None else scan ps startid (nid + 1))
      else Some nid)"
  by pat_completeness auto
termination
proof (relation "measure (\<lambda>(ps, startid, nid). unat (startid - nid - 1))")
  show "wf (measure (\<lambda>(ps, startid, nid). unat (startid - nid - 1)))"
    by simp
next
  fix ps :: "uint16 \<rightharpoonup> FrameSender" and startid nid :: uint16
  assume differ: "nid + 1 \<noteq> startid"
  define x where "x = startid - nid - 1"
  have nz: "x \<noteq> 0"
    using differ unfolding x_def by (metis diff_diff_add eq_iff_diff_eq_0)
  have "startid - (nid + 1) - 1 = x - 1"
    unfolding x_def by simp
  moreover have "unat (x - 1) < unat x"
    using nz by (simp add: unat_minus_one unat_gt_0)
  ultimately have "unat (startid - (nid + 1) - 1) < unat (startid - nid - 1)"
    unfolding x_def by metis
  then show "((ps, startid, nid + 1), (ps, startid, nid))
      \<in> measure (\<lambda>(ps, startid, nid). unat (startid - nid - 1))"
    by simp
qed

declare scan.simps [simp del]

definition PutIntoNextId :: "FrameSender \<Rightarrow> Session \<Rightarrow> ((error + uint16) \<times> Session) outcome" where
  "PutIntoNextId fs s =
     (if plock s then Blocked
      else (case scan (ports s) (next_id s) (next_id s) of
              None \<Rightarrow> Returns (Inl ErrRunOutOfStreamId, s\<lparr>plock := True\<rparr>)
            | Some i \<Rightarrow>
                Returns (Inr i, s\<lparr>next_id := i + 2, ports := (ports s)(i \<mapsto> fs)\<rparr>)))"

definition PutIntoId :: "uint16 \<Rightarrow> FrameSender \<Rightarrow> Session \<Rightarrow> (error option \<times> Session) outcome" where
  "PutIntoId i fs s =
     (if plock s then Blocked
      else if ports s i \<noteq> None then Returns (Some ErrIdExist, s\<lparr>plock := True\<rparr>)
      else Returns (None, s\<lparr>ports := (ports s)(i \<mapsto> fs)\<rparr>))"

definition RemovePort :: "uint16 \<Rightarrow> Session \<Rightarrow> (error option \<times> Session) outcome" where
  "RemovePort i s =
     (if plock s then Blocked
      else if ports s i = None then Returns (Some (ErrPortNotExist i), s\<lparr>plock := True\<rparr>)
      else Returns (None, s\<lparr>ports := (ports s)(i := None)\<rparr>))"

subsection \<open>What the session does not own\<close>

text \<open>
  A DNS message of \<^verbatim>\<open>github.com/miekg/dns\<close>, with the fields the session reads or sets.
  A resource record is an A record, an AAAA record or one of another type.
\<close>

datatype RR = RR_A IP | RR_AAAA IP | RR_Other uint16

record Msg =
  Id_msg :: uint16
  Response :: bool
  RecursionDesired :: bool
  Question :: "(string \<times> uint16) list"
  Answer :: "RR list"

definition TypeA :: uint16 where
  "TypeA = 1"

text \<open>
  The libraries, the carrier and the parts of the repository that are not in the source
  files at hand are parameters of the model, collected in one record:
  \<^item> \<open>ParseIP\<close> is \<^verbatim>\<open>net.ParseIP\<close> (\<open>None\<close> for nil); \<open>Fqdn\<close> is \<^verbatim>\<open>dns.Fqdn\<close>; \<open>dns_Id\<close> is the
    transaction id that \<^verbatim>\<open>dns.Id()\<close> draws; \<open>Pack\<close> and \<open>Unpack\<close> are the methods of
    \<^verbatim>\<open>dns.Msg\<close>;
  \<^item> \<open>Packed\<close> is \<^verbatim>\<open>Frame.Packed\<close>; \<open>Write\<close> is \<^verbatim>\<open>net.Conn.Write\<close> on the carrier, given the
    frames written before and the bytes, returning the count and the error;
  \<^item> \<open>fs_SendFrame\<close> is \<^verbatim>\<open>FrameSender.SendFrame\<close> of a stream or of a one-shot channel,
    which may change the session;
  \<^item> \<open>SendSynAndWait\<close> is the method of that name of a stream, which sends the SYN frame
    and waits for the RESULT frame;
  \<^item> \<open>RecvWithTimeout\<close> is what the one-shot channel of a lookup yields: the frame that
    the read loop delivered, or the error of the timeout;
  \<^item> \<open>Exchange\<close> is \<open>None\<close> when \<^verbatim>\<open>sutils.DefaultLookuper\<close> is not a \<^verbatim>\<open>*sutils.DnsLookup\<close>, and
    its \<^verbatim>\<open>Exchange\<close> method otherwise;
  \<^item> \<open>DEBUGDNS\<close> is the constant of that name;
  \<^item> \<open>Readcnt_Close\<close> and \<open>Writecnt_Close\<close> are the results of closing the two speed
    counters.
\<close>

record World =
  ParseIP :: "string \<Rightarrow> IP option"
  Fqdn :: "string \<Rightarrow> string"
  dns_Id :: uint16
  Pack :: "Msg \<Rightarrow> error + bytes"
  Unpack :: "bytes \<Rightarrow> error + Msg"
  Packed :: "Frame \<Rightarrow> error + bytes"
  Write :: "Frame list \<Rightarrow> bytes \<Rightarrow> nat \<times> error option"
  fs_SendFrame :: "FrameSender \<Rightarrow> Frame \<Rightarrow> Session \<Rightarrow> (error option \<times> Session) outcome"
  SendSynAndWait :: "Conn \<Rightarrow> Session \<Rightarrow> (error option \<times> Session) outcome"
  RecvWithTimeout :: "error + Frame"
  Exchange :: "(Msg \<Rightarrow> error + Msg) option"
  DEBUGDNS :: bool
  Readcnt_Close :: "error option"
  Writecnt_Close :: "error option"

subsection \<open>Listing the streams\<close>

text \<open>
  \<^verbatim>\<open>GetPorts\<close> ranges over the map; Go visits every key once, in an order it does not
  specify. The order is the parameter \<open>ks\<close>. \<^verbatim>\<open>sort.Sort\<close> with \<^verbatim>\<open>Less\<close> on the streams' own
  \<^verbatim>\<open>streamid\<close> is \<open>sort_key streamid\<close>; Go does not say in which order it leaves two streams
  of equal \<^verbatim>\<open>streamid\<close>, and nothing below depends on it.
\<close>

definition GetPorts :: "uint16 list \<Rightarrow> Session \<Rightarrow> Conn list outcome" where
  "GetPorts ks s =
     (if plock s then Blocked
      else Returns (concat (map (\<lambda>k. case ports s k of
                                        Some (FsConn c) \<Rightarrow> [c]
                                      | _ \<Rightarrow> []) ks)))"

definition GetSortedPorts :: "uint16 list \<Rightarrow> Session \<Rightarrow> Conn list outcome" where
  "GetSortedPorts ks s =
     (case GetPorts ks s of
        Returns cs \<Rightarrow> Returns (sort_key streamid cs)
      | Blocked \<Rightarrow> Blocked
      | Panicked \<Rightarrow> Panicked)"

subsection \<open>Closing and writing\<close>

text \<open>
  \<^verbatim>\<open>Close\<close> closes the carrier on every path (the deferred \<^verbatim>\<open>s.Conn.Close()\<close>), returns
  early when a speed counter fails to close, and otherwise takes the read lock and sets
  \<^verbatim>\<open>closed\<close>. The \<^verbatim>\<open>CloseFrame\<close> calls run in goroutines of their own and are not modelled.
\<close>

definition Close :: "World \<Rightarrow> Session \<Rightarrow> (error option \<times> Session) outcome" where
  "Close w s =
     (case Readcnt_Close w of
        Some e \<Rightarrow> Returns (Some e, s\<lparr>conn_closed := True\<rparr>)
      | None \<Rightarrow>
          (case Writecnt_Close w of
             Some e \<Rightarrow> Returns (Some e, s\<lparr>conn_closed := True\<rparr>)
           | None \<Rightarrow>
               if plock s then Blocked
               else Returns (None, s\<lparr>closed := True, conn_closed := True\<rparr>)))"

definition SendFrame :: "World \<Rightarrow> Frame \<Rightarrow> Session \<Rightarrow> error option \<times> Session" where
  "SendFrame w f s =
     (case Packed w f of
        Inl e \<Rightarrow> (Some e, s)
      | Inr b \<Rightarrow>
          (case Write w (wire s) b of
             (n, err) \<Rightarrow>
               (let s' = s\<lparr>wire := wire s @ [f]\<rparr>
                in case err of
                     Some e \<Rightarrow> (Some e, s')
                   | None \<Rightarrow> if n \<noteq> length b then (Some ErrShortWrite, s') else (None, s'))))"

subsection \<open>Dispatch of stream frames and of SYN\<close>

definition sendFrameInChan :: "World \<Rightarrow> Frame \<Rightarrow> Session \<Rightarrow> (error option \<times> Session) outcome" where
  "sendFrameInChan w f s =
     (if plock s then Blocked
      else (case ports s (GetStreamid f) of
              None \<Rightarrow> Returns (Some ErrStreamNotExist, s)
            | Some c \<Rightarrow> fs_SendFrame w c f s))"

text \<open>
  \<^verbatim>\<open>on_syn\<close>, up to the \<^verbatim>\<open>go\<close> statement: the dial of the target and its RESULT frame run
  in a goroutine of their own, after \<^verbatim>\<open>on_syn\<close> has returned nil.
\<close>

definition on_syn :: "World \<Rightarrow> uint16 \<Rightarrow> string \<Rightarrow> string \<Rightarrow> Session \<Rightarrow> (error option \<times> Session) outcome" where
  "on_syn w i n a s =
     (case CheckAndSetStatus ST_UNKNOWN ST_SYN_RECV (NewConn i n a) of
        (Some e, c) \<Rightarrow> Returns (Some e, s)
      | (None, c) \<Rightarrow>
          (case PutIntoId i (FsConn c) s of
             Blocked \<Rightarrow> Blocked
           | Panicked \<Rightarrow> Panicked
           | Returns (Some e, s1) \<Rightarrow> Returns (SendFrame w (FrameResult i ERR_IDEXIST) s1)
           | Returns (None, s1) \<Rightarrow> Returns (None, s1)))"

text \<open>
  \<^verbatim>\<open>Dial\<close> puts the new stream into the table with \<^verbatim>\<open>streamid\<close> 0 and then sets the
  \<^verbatim>\<open>streamid\<close> of that same stream, which the table holds by pointer.
\<close>

definition Dial :: "World \<Rightarrow> string \<Rightarrow> string \<Rightarrow> Session \<Rightarrow> ((error + Conn) \<times> Session) outcome" where
  "Dial w n a s =
     (case PutIntoNextId (FsConn (NewConn 0 n a)) s of
        Blocked \<Rightarrow> Blocked
      | Panicked \<Rightarrow> Panicked
      | Returns (Inl e, s1) \<Rightarrow> Returns (Inl e, s1)
      | Returns (Inr sid, s1) \<Rightarrow>
          (let c = (NewConn 0 n a)\<lparr>streamid := sid\<rparr>;
               s2 = s1\<lparr>ports := (ports s1)(sid \<mapsto> FsConn c)\<rparr>
           in case SendSynAndWait w c s2 of
                Blocked \<Rightarrow> Blocked
              | Panicked \<Rightarrow> Panicked
              | Returns (Some e, s3) \<Rightarrow> Returns (Inl e, s3)
              | Returns (None, s3) \<Rightarrow> Returns (Inr c, s3)))"

subsection \<open>The DNS tunnel\<close>

text \<open>
  \<^verbatim>\<open>MakeDnsFrame\<close> returns the request, and the frame or the error of \<^verbatim>\<open>Pack\<close>.
  \<^verbatim>\<open>SetQuestion\<close> of the library puts one question into the message.
\<close>

definition MakeDnsFrame :: "World \<Rightarrow> string \<Rightarrow> uint16 \<Rightarrow> uint16 \<Rightarrow> Msg \<times> (error + Frame)" where
  "MakeDnsFrame w host t sid =
     (let req = \<lparr>Id_msg = dns_Id w, Response = False, RecursionDesired = True,
                 Question = [(Fqdn w host, t)], Answer = []\<rparr>
      in case Pack w req of
           Inl e \<Rightarrow> (req, Inl e)
         | Inr b \<Rightarrow> (req, Inr (FrameDns sid b)))"

text \<open>The loop of \<^verbatim>\<open>ParseDnsFrame\<close> over \<^verbatim>\<open>res.Answer\<close>.\<close>

fun answer_addrs :: "RR list \<Rightarrow> IP list" where
  "answer_addrs [] = []"
| "answer_addrs (RR_A ip # rs) = ip # answer_addrs rs"
| "answer_addrs (RR_AAAA ip # rs) = ip # answer_addrs rs"
| "answer_addrs (RR_Other t # rs) = answer_addrs rs"

text \<open>
  With \<^verbatim>\<open>DEBUGDNS\<close> set, \<^verbatim>\<open>ParseDnsFrame\<close> reads \<^verbatim>\<open>req.Question[0]\<close> for the log, which
  panics on a request without a question.
\<close>

definition ParseDnsFrame :: "World \<Rightarrow> Frame \<Rightarrow> Msg \<Rightarrow> (error + IP list) outcome" where
  "ParseDnsFrame w f req =
     (case f of
        FrameDns sid data \<Rightarrow>
          (case Unpack w data of
             Inl e \<Rightarrow> Returns (Inl ErrDnsMsgIllegal)
           | Inr res \<Rightarrow>
               if \<not> Response res \<or> Id_msg res \<noteq> Id_msg req then Returns (Inl ErrDnsMsgIllegal)
               else if DEBUGDNS w \<and> Question req = [] then Panicked
               else Returns (Inr (answer_addrs (Answer res))))
      | _ \<Rightarrow> Returns (Inl ErrDnsMsgIllegal))"

text \<open>
  \<^verbatim>\<open>LookupIP\<close> after the allocation of the streamid: \<open>LookupIP_body\<close> is the code from
  \<^verbatim>\<open>MakeDnsFrame\<close> to the end, \<open>LookupIP_deferred\<close> the deferred function, which runs on
  every return of the body and drops the error of \<^verbatim>\<open>RemovePort\<close>. While the lookup waits
  in \<^verbatim>\<open>RecvWithTimeout\<close>, nothing else changes the session.
\<close>

definition LookupIP_body :: "World \<Rightarrow> string \<Rightarrow> uint16 \<Rightarrow> Session \<Rightarrow> ((error + IP list) \<times> Session) outcome" where
  "LookupIP_body w host sid s =
     (case MakeDnsFrame w host TypeA sid of
        (req, Inl e) \<Rightarrow> Returns (Inl e, s)
      | (req, Inr freq) \<Rightarrow>
          (case SendFrame w freq s of
             (Some e, s') \<Rightarrow> Returns (Inl e, s')
           | (None, s') \<Rightarrow>
               (case RecvWithTimeout w of
                  Inl e \<Rightarrow> Returns (Inl e, s')
                | Inr fres \<Rightarrow>
                    (case ParseDnsFrame w fres req of
                       Blocked \<Rightarrow> Blocked
                     | Panicked \<Rightarrow> Panicked
                     | Returns r \<Rightarrow> Returns (r, s')))))"

definition LookupIP_deferred :: "uint16 \<Rightarrow> ((error + IP list) \<times> Session) outcome \<Rightarrow> ((error + IP list) \<times> Session) outcome" where
  "LookupIP_deferred sid r =
     (case r of
        Blocked \<Rightarrow> Blocked
      | Panicked \<Rightarrow> Panicked
      | Returns (res, s) \<Rightarrow>
          (case RemovePort sid s of
             Blocked \<Rightarrow> Blocked
           | Panicked \<Rightarrow> Panicked
           | Returns (err, s') \<Rightarrow> Returns (res, s')))"

definition LookupIP :: "World \<Rightarrow> string \<Rightarrow> Session \<Rightarrow> ((error + IP list) \<times> Session) outcome" where
  "LookupIP w host s =
     (case ParseIP w host of
        Some ip \<Rightarrow> Returns (Inr [ip], s)
      | None \<Rightarrow>
          (case PutIntoNextId FsChan s of
             Blocked \<Rightarrow> Blocked
           | Panicked \<Rightarrow> Panicked
           | Returns (Inl e, s') \<Rightarrow> Returns (Inl e, s')
           | Returns (Inr sid, s') \<Rightarrow> LookupIP_deferred sid (LookupIP_body w host sid s')))"

text \<open>
  \<^verbatim>\<open>on_dns\<close> on a DNS frame of streamid \<open>sid\<close> and payload \<open>data\<close>. A query is logged with
  \<^verbatim>\<open>req.Question[0].Name\<close>, which panics on a query without a question.
\<close>

definition on_dns :: "World \<Rightarrow> uint16 \<Rightarrow> bytes \<Rightarrow> Session \<Rightarrow> (error option \<times> Session) outcome" where
  "on_dns w sid data s =
     (case Unpack w data of
        Inl e \<Rightarrow> Returns (Some ErrDnsMsgIllegal, s)
      | Inr req \<Rightarrow>
          if Response req then sendFrameInChan w (FrameDns sid data) s
          else if Question req = [] then Panicked
          else (case Exchange w of
                  None \<Rightarrow> Returns (Some ErrNoDnsServer, s)
                | Some exchange \<Rightarrow>
                    (case exchange req of
                       Inl e \<Rightarrow> Returns (None, s)
                     | Inr res \<Rightarrow>
                         (case Pack w res of
                            Inl e \<Rightarrow> Returns (None, s)
                          | Inr b \<Rightarrow> Returns (SendFrame w (FrameDns sid b) s)))))"

subsection \<open>The read loop\<close>

text \<open>
  The frames of the arm \<^verbatim>\<open>case *FrameResult, *FrameData, *FrameWnd, *FrameFin, *FrameRst\<close>
  of the type switch in \<^verbatim>\<open>Run\<close>.
\<close>

fun stream_frame :: "Frame \<Rightarrow> bool" where
  "stream_frame (FrameResult i e) = True"
| "stream_frame (FrameData i d) = True"
| "stream_frame (FrameWnd i n) = True"
| "stream_frame (FrameFin i) = True"
| "stream_frame (FrameRst i) = True"
| "stream_frame f = False"

text \<open>
  The type switch of \<^verbatim>\<open>Run\<close> on one frame. The result is the error that makes \<^verbatim>\<open>Run\<close>
  return, or \<open>None\<close> when the loop goes on.
\<close>

fun dispatch :: "World \<Rightarrow> Frame \<Rightarrow> Session \<Rightarrow> (error option \<times> Session) outcome" where
  "dispatch w (FrameResult i e) s = sendFrameInChan w (FrameResult i e) s"
| "dispatch w (FrameData i d) s = sendFrameInChan w (FrameData i d) s"
| "dispatch w (FrameWnd i n) s = sendFrameInChan w (FrameWnd i n) s"
| "dispatch w (FrameFin i) s = sendFrameInChan w (FrameFin i) s"
| "dispatch w (FrameRst i) s = sendFrameInChan w (FrameRst i) s"
| "dispatch w (FrameSyn i n a) s = on_syn w i n a s"
| "dispatch w (FrameDns i d) s = on_dns w i d s"
| "dispatch w (FramePing i) s = Returns (None, s)"
| "dispatch w (FrameSpam i d) s = Returns (None, s)"
| "dispatch w (FrameOther i) s = Returns (Some ErrUnexpectedPkg, s)"

text \<open>
  What \<^verbatim>\<open>ReadFrame\<close> yields on the carrier, one entry for each call: a frame or an error
  (\<open>EOF\<close> among them). After the last entry the carrier delivers nothing more and
  \<^verbatim>\<open>ReadFrame\<close> does not return. \<open>Run_loop\<close> is the \<^verbatim>\<open>for\<close> loop of \<^verbatim>\<open>Run\<close>; it returns the error
  that ended it and the session at that point. \<^verbatim>\<open>Run\<close> then runs the deferred \<^verbatim>\<open>Close\<close>.
\<close>

datatype read_result = RdFrame Frame | RdErr error

fun Run_loop :: "World \<Rightarrow> read_result list \<Rightarrow> Session \<Rightarrow> (error \<times> Session) outcome" where
  "Run_loop w [] s = Blocked"
| "Run_loop w (RdErr e # rs) s = Returns (e, s)"
| "Run_loop w (RdFrame f # rs) s =
     (case dispatch w f s of
        Blocked \<Rightarrow> Blocked
      | Panicked \<Rightarrow> Panicked
      | Returns (Some e, s') \<Rightarrow> Returns (e, s')
      | Returns (None, s') \<Rightarrow> Run_loop w rs s')"

definition Run :: "World \<Rightarrow> read_result list \<Rightarrow> Session \<Rightarrow> Session outcome" where
  "Run w rs s =
     (case Run_loop w rs s of
        Blocked \<Rightarrow> Blocked
      | Panicked \<Rightarrow> Panicked
      | Returns (e, s') \<Rightarrow>
          (case Close w s' of
             Blocked \<Rightarrow> Blocked
           | Panicked \<Rightarrow> Panicked
           | Returns (err, s'') \<Rightarrow> Returns s''))"

subsection \<open>Notions used in the statements\<close>

text \<open>
  The addresses of an answer section as the specification words them: the A and AAAA
  records, in order, every other record dropped.
\<close>

fun is_address_record :: "RR \<Rightarrow> bool" where
  "is_address_record (RR_A ip) = True"
| "is_address_record (RR_AAAA ip) = True"
| "is_address_record (RR_Other t) = False"

fun record_address :: "RR \<Rightarrow> IP" where
  "record_address (RR_A ip) = ip"
| "record_address (RR_AAAA ip) = ip"
| "record_address (RR_Other t) = []"

definition address_records :: "RR list \<Rightarrow> IP list" where
  "address_records rs = map record_address (filter is_address_record rs)"

text \<open>
  Every stream of the table is stored under its own \<^verbatim>\<open>streamid\<close>. \<^verbatim>\<open>on_syn\<close> stores
  \<^verbatim>\<open>NewConn(ft.Streamid, ...)\<close> under \<^verbatim>\<open>ft.Streamid\<close>, and \<^verbatim>\<open>Dial\<close> sets the \<^verbatim>\<open>streamid\<close> of the
  stream to the id it was stored under.
\<close>

definition streamids_match :: "Session \<Rightarrow> bool" where
  "streamids_match s \<longleftrightarrow> (\<forall>k c. ports s k = Some (FsConn c) \<longrightarrow> streamid c = k)"

text \<open>\<open>k\<close> calls of \<^verbatim>\<open>LookupIP\<close>, one after the other, on the same session.\<close>

fun lookups :: "World \<Rightarrow> string \<Rightarrow> nat \<Rightarrow> Session \<Rightarrow> Session outcome" where
  "lookups w host 0 s = Returns s"
| "lookups w host (Suc k) s =
     (case LookupIP w host s of
        Blocked \<Rightarrow> Blocked
      | Panicked \<Rightarrow> Panicked
      | Returns (r, s') \<Rightarrow> lookups w host k s')"

text \<open>
  A world to evaluate the definitions in: the carrier writes every frame in full, a
  frame packs to no bytes, a DNS payload unpacks to a message whose first byte says
  whether it is a response, and the resolver answers every query with one A record.
\<close>

definition example_msg :: "bool \<Rightarrow> Msg" where
  "example_msg r =
     \<lparr>Id_msg = 7, Response = r, RecursionDesired = True,
      Question = [(''example.test.'', TypeA)],
      Answer = [RR_A [1, 2, 3, 4], RR_Other 5, RR_AAAA [0, 0, 0, 0, 0, 0, 0, 0, 0, 0, 0, 0, 0, 0, 0, 1]]\<rparr>"

definition example_world :: World where
  "example_world =
     \<lparr>ParseIP = (\<lambda>h. if h = ''1.2.3.4'' then Some [1, 2, 3, 4] else None),
      Fqdn = (\<lambda>h. h @ ''.''),
      dns_Id = 7,
      Pack = (\<lambda>m. Inr [if Response m then 1 else 0]),
      Unpack = (\<lambda>d. case d of
                       [] \<Rightarrow> Inl (ErrOther ''dns: overflow unpacking'')
                     | b # bs \<Rightarrow> Inr (example_msg (b \<noteq> 0))),
      Packed = (\<lambda>f. Inr []),
      Write = (\<lambda>log b. (length b, None)),
      fs_SendFrame = (\<lambda>c f s. Returns (None, s)),
      SendSynAndWait = (\<lambda>c s. Returns (None, s)),
      RecvWithTimeout = Inr (FrameDns 1 [1]),
      Exchange = Some (\<lambda>req. Inr (req\<lparr>Response := True, Answer := [RR_A [1, 2, 3, 4]]\<rparr>)),
      DEBUGDNS = False,
      Readcnt_Close = None,
      Writecnt_Close = None\<rparr>"

section \<open>Allocation of stream ids\<close>

subsection \<open>The scan\<close>

lemma unat_pred_le_iff:
  fixes a b :: uint16
  assumes "a \<noteq> 0" "b \<noteq> 0"
  shows "unat (a - 1) \<le> unat (b - 1) \<longleftrightarrow> unat a \<le> unat b"
proof -
  have "unat (a - 1) = unat a - 1" "unat (b - 1) = unat b - 1"
    using assms by (simp_all add: unat_minus_one)
  moreover have "0 < unat a" "0 < unat b" using assms by (simp_all add: unat_gt_0)
  ultimately show ?thesis by arith
qed

lemma scan_None_iff:
  "scan ps st nid = None \<longleftrightarrow> (\<forall>i. unat (i - nid) \<le> unat (st - 1 - nid) \<longrightarrow> ps i \<noteq> None)"
proof (induction ps st nid rule: scan.induct)
  case (1 ps st nid)
  show ?case
  proof (cases "ps nid = None")
    case True
    then have "scan ps st nid = Some nid" by (simp add: scan.simps)
    moreover have "unat (nid - nid) \<le> unat (st - 1 - nid) \<and> ps nid = None"
      using True by simp
    ultimately show ?thesis by (metis option.distinct(1))
  next
    case occupied: False
    show ?thesis
    proof (cases "nid + 1 = st")
      case True
      then have "scan ps st nid = None" using occupied by (simp add: scan.simps)
      moreover have "st - 1 - nid = 0" using True by auto
      ultimately show ?thesis using occupied by (auto simp: unat_eq_zero)
    next
      case False
      define b where "b = st - 1 - nid"
      have bnz: "b \<noteq> 0" using False unfolding b_def
        by (metis add.commute diff_add_cancel diff_diff_add eq_iff_diff_eq_0)
      have step: "scan ps st nid = scan ps st (nid + 1)"
        using occupied False by (subst scan.simps) simp
      have ih: "scan ps st (nid + 1) = None \<longleftrightarrow>
          (\<forall>i. unat (i - (nid + 1)) \<le> unat (st - 1 - (nid + 1)) \<longrightarrow> ps i \<noteq> None)"
        using "1.IH" occupied False by simp
      have shift: "\<And>i. i - (nid + 1) = (i - nid) - 1" by simp
      have bshift: "st - 1 - (nid + 1) = b - 1" unfolding b_def by simp
      have "(\<forall>i. unat (i - (nid + 1)) \<le> unat (st - 1 - (nid + 1)) \<longrightarrow> ps i \<noteq> None)
          \<longleftrightarrow> (\<forall>i. unat (i - nid) \<le> unat b \<longrightarrow> ps i \<noteq> None)"
      proof (intro iffI allI impI)
        fix i assume h: "\<forall>i. unat (i - (nid + 1)) \<le> unat (st - 1 - (nid + 1)) \<longrightarrow> ps i \<noteq> None"
          and le: "unat (i - nid) \<le> unat b"
        show "ps i \<noteq> None"
        proof (cases "i = nid")
          case True then show ?thesis using occupied by simp
        next
          case False
          then have "i - nid \<noteq> 0" by simp
          then have "unat ((i - nid) - 1) \<le> unat (b - 1)"
            using le bnz by (simp add: unat_pred_le_iff)
          then show ?thesis using h shift bshift by metis
        qed
      next
        fix i assume h: "\<forall>i. unat (i - nid) \<le> unat b \<longrightarrow> ps i \<noteq> None"
          and le: "unat (i - (nid + 1)) \<le> unat (st - 1 - (nid + 1))"
        show "ps i \<noteq> None"
        proof (cases "i = nid")
          case True then show ?thesis using occupied by simp
        next
          case False
          then have "i - nid \<noteq> 0" by simp
          moreover have "unat ((i - nid) - 1) \<le> unat (b - 1)"
            using le shift bshift by metis
          ultimately have "unat (i - nid) \<le> unat b"
            using bnz by (simp add: unat_pred_le_iff)
          then show ?thesis using h by blast
        qed
      qed
      then show ?thesis using step ih unfolding b_def by simp
    qed
  qed
qed

lemma scan_full_circle: "scan ps st st = None \<longleftrightarrow> (\<forall>i. ps i \<noteq> None)"
proof -
  have "st - 1 - st = - 1" by simp
  moreover have "\<And>i :: uint16. unat i \<le> unat (- 1 :: uint16)"
    by (metis word_le_nat_alt word_n1_ge)
  ultimately show ?thesis by (simp add: scan_None_iff)
qed

lemma scan_free_here: "ps nid = None \<Longrightarrow> scan ps st nid = Some nid"
  by (subst scan.simps) simp

lemma scan_Some_free: "scan ps st nid = Some i \<Longrightarrow> ps i = None"
proof (induction ps st nid rule: scan.induct)
  case (1 ps st nid)
  show ?case
  proof (cases "ps nid = None")
    case True
    then show ?thesis using "1.prems" by (simp add: scan_free_here)
  next
    case False
    then show ?thesis using 1 by (subst (asm) scan.simps) (simp split: if_splits)
  qed
qed

lemma scan_Some_first:
  "scan ps st nid = Some i \<Longrightarrow> unat (j - nid) < unat (i - nid) \<Longrightarrow> ps j \<noteq> None"
proof (induction ps st nid rule: scan.induct)
  case (1 ps st nid)
  show ?case
  proof (cases "ps nid = None")
    case True
    then have "i = nid" using "1.prems"(1) by (simp add: scan_free_here)
    then show ?thesis using "1.prems"(2) by simp
  next
    case occupied: False
    then have ne: "nid + 1 \<noteq> st" and rec: "scan ps st (nid + 1) = Some i"
      using "1.prems"(1) by (subst (asm) scan.simps, simp split: if_splits)+
    show ?thesis
    proof (cases "j = nid")
      case True
      then show ?thesis using occupied by simp
    next
      case False
      have "ps i = None" using rec by (rule scan_Some_free)
      then have "i \<noteq> nid" using occupied by auto
      then have inz: "i - nid \<noteq> 0" by simp
      have jnz: "j - nid \<noteq> 0" using False by simp
      have "0 < unat (j - nid)" using jnz by (simp add: unat_gt_0)
      moreover have "unat ((j - nid) - 1) = unat (j - nid) - 1"
        and "unat ((i - nid) - 1) = unat (i - nid) - 1"
        using inz jnz by (simp_all add: unat_minus_one)
      ultimately have "unat ((j - nid) - 1) < unat ((i - nid) - 1)"
        using "1.prems"(2) by arith
      moreover have "j - (nid + 1) = (j - nid) - 1" and "i - (nid + 1) = (i - nid) - 1"
        by simp_all
      ultimately have "unat (j - (nid + 1)) < unat (i - (nid + 1))" by metis
      then show ?thesis using "1.IH" occupied ne rec by simp
    qed
  qed
qed

lemma PutIntoNextId_free:
  assumes "\<not> plock s" "ports s (next_id s) = None"
  shows "PutIntoNextId fs s =
    Returns (Inr (next_id s), s\<lparr>next_id := next_id s + 2, ports := (ports s)(next_id s \<mapsto> fs)\<rparr>)"
  using assms by (simp add: PutIntoNextId_def scan_free_here)

lemma PutIntoNextId_Inr:
  assumes "PutIntoNextId fs s = Returns (Inr i, s')"
  shows "ports s i = None \<and> s' = s\<lparr>next_id := i + 2, ports := (ports s)(i \<mapsto> fs)\<rparr>
    \<and> (\<forall>j. unat (j - next_id s) < unat (i - next_id s) \<longrightarrow> ports s j \<noteq> None)"
  using assms
  by (auto simp: PutIntoNextId_def split: if_splits option.splits
      dest: scan_Some_free scan_Some_first)

lemma PutIntoNextId_skips_one:
  assumes "\<not> plock s" "ports s (next_id s) \<noteq> None" "ports s (next_id s + 1) = None"
  shows "PutIntoNextId fs s =
    Returns (Inr (next_id s + 1), s\<lparr>next_id := next_id s + 3, ports := (ports s)(next_id s + 1 \<mapsto> fs)\<rparr>)"
proof -
  have "next_id s + 1 \<noteq> next_id s" by simp
  then have "scan (ports s) (next_id s) (next_id s) = scan (ports s) (next_id s) (next_id s + 1)"
    using assms(2) by (subst scan.simps) simp
  also have "\<dots> = Some (next_id s + 1)" using assms(3) by (rule scan_free_here)
  finally show ?thesis using assms(1) by (simp add: PutIntoNextId_def add.assoc)
qed

text \<open>
  C1. The claim: \<^verbatim>\<open>PutIntoNextId\<close> scans in steps of 2, so every id that a session
  allocates has the parity of its initial \<^verbatim>\<open>next_id\<close>. The scan of the code steps by 1
  (\<^verbatim>\<open>s.next_id += 1\<close>); only the advance after the allocation is by 2. On a client session
  (\<^verbatim>\<open>next_id\<close> 1) whose stream 1 is still open, \<^verbatim>\<open>PutIntoNextId\<close> hands out the even id 2
  and leaves \<^verbatim>\<open>next_id\<close> at 4, so every later allocation is even as well.
\<close>

theorem PutIntoNextId_leaves_parity:
  "PutIntoNextId FsChan ((NewSession 1)\<lparr>ports := [1 \<mapsto> FsConn (NewConn 1 ''tcp'' ''example.test:80'')]\<rparr>) =
     Returns (Inr 2, (NewSession 1)\<lparr>next_id := 4,
       ports := [1 \<mapsto> FsConn (NewConn 1 ''tcp'' ''example.test:80''), 2 \<mapsto> FsChan]\<rparr>)"
  by (simp add: PutIntoNextId_def NewSession_def scan.simps)

text \<open>
  C8. On a session whose mutex is free, \<^verbatim>\<open>PutIntoNextId\<close> fails with the error
  "run out of stream id" exactly when every streamid is taken (the scan steps by 1, so
  it visits all 65536 of them before it is back at its start). It fails with no other
  error; a failure returns no id and leaves the port table and \<^verbatim>\<open>next_id\<close> as they were.
\<close>

theorem PutIntoNextId_RunOutOfStreamId:
  assumes "\<not> plock s"
  shows "(PutIntoNextId fs s = Returns (Inl ErrRunOutOfStreamId, s\<lparr>plock := True\<rparr>)
           \<longleftrightarrow> (\<forall>i. ports s i \<noteq> None))
       \<and> (\<forall>e s'. PutIntoNextId fs s = Returns (Inl e, s')
             \<longrightarrow> e = ErrRunOutOfStreamId \<and> (\<forall>i. ports s i \<noteq> None)
               \<and> ports s' = ports s \<and> next_id s' = next_id s)"
proof (cases "scan (ports s) (next_id s) (next_id s)")
  case None
  then have "\<forall>i. ports s i \<noteq> None" by (simp add: scan_full_circle)
  then show ?thesis using assms None by (simp add: PutIntoNextId_def)
next
  case (Some j)
  then have "\<not> (\<forall>i. ports s i \<noteq> None)"
    using scan_full_circle [of "ports s" "next_id s"] by simp
  then show ?thesis using assms Some by (simp add: PutIntoNextId_def)
qed

theorem PutIntoNextId_RunOutOfStreamId_witness:
  "PutIntoNextId FsChan ((NewSession 1)\<lparr>ports := (\<lambda>i. Some FsChan)\<rparr>) =
     Returns (Inl ErrRunOutOfStreamId, (NewSession 1)\<lparr>ports := (\<lambda>i. Some FsChan), plock := True\<rparr>)
   \<and> PutIntoNextId FsChan (NewSession 1) \<noteq>
     Returns (Inl ErrRunOutOfStreamId, (NewSession 1)\<lparr>plock := True\<rparr>)"
  using PutIntoNextId_RunOutOfStreamId [of "(NewSession 1)\<lparr>ports := (\<lambda>i. Some FsChan)\<rparr>" FsChan]
    PutIntoNextId_RunOutOfStreamId [of "NewSession 1" FsChan]
  by (simp add: NewSession_def)

section \<open>The read loop and its errors\<close>

subsection \<open>Stream frames for an unknown streamid\<close>


lemma dispatch_stream_frame:
  "stream_frame f \<Longrightarrow> dispatch w f s = sendFrameInChan w f s"
  by (cases f) simp_all




subsection \<open>DNS frames\<close>


lemma on_dns_late_response:
  assumes "Unpack w d = Inr m" "Response m" "ports s i = None" "\<not> plock s"
  shows "Run_loop w (RdFrame (FrameDns i d) # rs) s = Returns (ErrStreamNotExist, s)"
  using assms by (simp add: on_dns_def sendFrameInChan_def)


lemma on_dns_exchange_error:
  assumes "Unpack w d = Inr req" "\<not> Response req" "Question req \<noteq> []"
    "Exchange w = Some ex" "ex req = Inl e"
  shows "Run_loop w (RdFrame (FrameDns i d) # rs) s = Run_loop w rs s"
  using assms by (simp add: on_dns_def)

lemma on_dns_pack_error:
  assumes "Unpack w d = Inr req" "\<not> Response req" "Question req \<noteq> []"
    "Exchange w = Some ex" "ex req = Inr res" "Pack w res = Inl e"
  shows "Run_loop w (RdFrame (FrameDns i d) # rs) s = Run_loop w rs s"
  using assms by (simp add: on_dns_def)



subsection \<open>SYN for a streamid in use\<close>

lemma PutIntoId_exists:
  assumes "\<not> plock s" "ports s i \<noteq> None"
  shows "PutIntoId i fs s = Returns (Some ErrIdExist, s\<lparr>plock := True\<rparr>)"
  using assms by (auto simp: PutIntoId_def)

lemma PutIntoId_free:
  assumes "\<not> plock s" "ports s i = None"
  shows "PutIntoId i fs s = Returns (None, s\<lparr>ports := (ports s)(i \<mapsto> fs)\<rparr>)"
  using assms by (simp add: PutIntoId_def)




text \<open>
  What the held mutex means for the frames that follow: the next frame that needs the
  port table stops the read loop for good, without closing the session.
\<close>

lemma wedged_after_id_exists:
  assumes "plock s" "stream_frame f"
  shows "Run_loop w (RdFrame f # rs) s = Blocked" "Run w (RdFrame f # rs) s = Blocked"
  using assms by (simp_all add: Run_def dispatch_stream_frame sendFrameInChan_def)

section \<open>The closed flag\<close>

subsection \<open>Insertion into a closed session\<close>

text \<open>
  C5, as claimed: on a session whose \<^verbatim>\<open>closed\<close> flag is set, \<^verbatim>\<open>PutIntoId\<close> and \<^verbatim>\<open>PutIntoNextId\<close>
  leave the port table unchanged and hand out no id. Neither method reads the flag: on
  a closed session with an empty table, \<^verbatim>\<open>PutIntoId(5, fs)\<close> stores \<open>fs\<close> under 5 and
  \<^verbatim>\<open>PutIntoNextId(fs)\<close> stores it under 1 and returns 1.
\<close>

theorem closed_session_accepts_ports:
  "closed ((NewSession 1)\<lparr>closed := True\<rparr>)
   \<and> PutIntoId 5 FsChan ((NewSession 1)\<lparr>closed := True\<rparr>)
       = Returns (None, (NewSession 1)\<lparr>closed := True, ports := [5 \<mapsto> FsChan]\<rparr>)
   \<and> PutIntoNextId FsChan ((NewSession 1)\<lparr>closed := True\<rparr>)
       = Returns (Inr 1, (NewSession 1)\<lparr>closed := True, next_id := 3, ports := [1 \<mapsto> FsChan]\<rparr>)"
  by (simp add: PutIntoId_def PutIntoNextId_def NewSession_def scan.simps)

text \<open>
  C5, amended: the \<^verbatim>\<open>closed\<close> flag does not stop insertions. On a closed session (mutex
  free) \<^verbatim>\<open>PutIntoId\<close> stores the sender under a free id and fails with \<^verbatim>\<open>ErrIdExist\<close>, table
  unchanged, on a taken one; \<^verbatim>\<open>PutIntoNextId\<close> stores the sender under a free id and returns
  that id whenever some id is free, and fails, table unchanged, only when none is.
\<close>

theorem insertion_ignores_closed:
  assumes "closed s" "\<not> plock s"
  shows "(ports s i = None \<longrightarrow>
            PutIntoId i fs s = Returns (None, s\<lparr>ports := (ports s)(i \<mapsto> fs)\<rparr>))
       \<and> (ports s i \<noteq> None \<longrightarrow>
            PutIntoId i fs s = Returns (Some ErrIdExist, s\<lparr>plock := True\<rparr>))
       \<and> ((\<exists>j. ports s j = None) \<longrightarrow>
            (\<exists>j. ports s j = None \<and>
               PutIntoNextId fs s =
                 Returns (Inr j, s\<lparr>next_id := j + 2, ports := (ports s)(j \<mapsto> fs)\<rparr>)))
       \<and> ((\<forall>j. ports s j \<noteq> None) \<longrightarrow>
            PutIntoNextId fs s = Returns (Inl ErrRunOutOfStreamId, s\<lparr>plock := True\<rparr>))"
proof -
  have a: "ports s i = None \<longrightarrow>
      PutIntoId i fs s = Returns (None, s\<lparr>ports := (ports s)(i \<mapsto> fs)\<rparr>)"
    using assms(2) by (simp add: PutIntoId_free)
  have b: "ports s i \<noteq> None \<longrightarrow>
      PutIntoId i fs s = Returns (Some ErrIdExist, s\<lparr>plock := True\<rparr>)"
    using assms(2) by (simp add: PutIntoId_exists)
  have c: "\<exists>j. ports s j = None \<and>
      PutIntoNextId fs s = Returns (Inr j, s\<lparr>next_id := j + 2, ports := (ports s)(j \<mapsto> fs)\<rparr>)"
    if "\<exists>j. ports s j = None"
  proof -
    from that have "scan (ports s) (next_id s) (next_id s) \<noteq> None"
      by (simp add: scan_full_circle)
    then obtain j where j: "scan (ports s) (next_id s) (next_id s) = Some j" by blast
    then have "ports s j = None" by (rule scan_Some_free)
    then show ?thesis using j assms(2) by (auto simp: PutIntoNextId_def)
  qed
  have d: "PutIntoNextId fs s = Returns (Inl ErrRunOutOfStreamId, s\<lparr>plock := True\<rparr>)"
    if "\<forall>j. ports s j \<noteq> None"
  proof -
    from that have "scan (ports s) (next_id s) (next_id s) = None"
      by (simp add: scan_full_circle)
    then show ?thesis using assms(2) by (simp add: PutIntoNextId_def)
  qed
  show ?thesis using a b c d by blast
qed

theorem insertion_ignores_closed_witness:
  "PutIntoId 5 FsChan ((NewSession 1)\<lparr>closed := True\<rparr>)
       = Returns (None, (NewSession 1)\<lparr>closed := True, ports := [5 \<mapsto> FsChan]\<rparr>)
   \<and> PutIntoId 5 FsChan ((NewSession 1)\<lparr>closed := True, ports := [5 \<mapsto> FsChan]\<rparr>)
       = Returns (Some ErrIdExist, (NewSession 1)\<lparr>closed := True, ports := [5 \<mapsto> FsChan], plock := True\<rparr>)
   \<and> (\<exists>j. PutIntoNextId FsChan ((NewSession 1)\<lparr>closed := True\<rparr>)
       = Returns (Inr j, (NewSession 1)\<lparr>closed := True, next_id := j + 2, ports := [j \<mapsto> FsChan]\<rparr>))
   \<and> PutIntoNextId FsChan ((NewSession 1)\<lparr>closed := True, ports := (\<lambda>i. Some FsChan)\<rparr>)
       = Returns (Inl ErrRunOutOfStreamId,
                  (NewSession 1)\<lparr>closed := True, ports := (\<lambda>i. Some FsChan), plock := True\<rparr>)"
  using insertion_ignores_closed [of "(NewSession 1)\<lparr>closed := True\<rparr>" 5 FsChan]
    insertion_ignores_closed [of "(NewSession 1)\<lparr>closed := True, ports := [5 \<mapsto> FsChan]\<rparr>" 5 FsChan]
    insertion_ignores_closed [of "(NewSession 1)\<lparr>closed := True, ports := (\<lambda>i. Some FsChan)\<rparr>" 5 FsChan]
  by (simp add: NewSession_def)

section \<open>The DNS tunnel\<close>

subsection \<open>Lookup of a literal IP\<close>

text \<open>
  C6. For a host that \<^verbatim>\<open>net.ParseIP\<close> parses, \<^verbatim>\<open>LookupIP\<close> returns the list of that one
  address and no error, and the session is exactly as before: nothing is handed to the
  carrier, and the port table, \<^verbatim>\<open>next_id\<close> and the mutex are untouched.
\<close>

theorem LookupIP_literal:
  assumes "ParseIP w host = Some ip"
  shows "LookupIP w host s = Returns (Inr [ip], s)"
  using assms by (simp add: LookupIP_def)

theorem LookupIP_literal_witness:
  "ParseIP example_world ''1.2.3.4'' = Some [1, 2, 3, 4]
   \<and> LookupIP example_world ''1.2.3.4'' (NewSession 1) = Returns (Inr [[1, 2, 3, 4]], NewSession 1)"
proof -
  have h: "ParseIP example_world ''1.2.3.4'' = Some [1, 2, 3, 4]"
    by (simp add: example_world_def)
  show ?thesis using h LookupIP_literal [OF h, of "NewSession 1"] by simp
qed

subsection \<open>Parsing a DNS response\<close>

lemma answer_addrs_eq: "answer_addrs rs = address_records rs"
  by (induction rs rule: answer_addrs.induct) (simp_all add: address_records_def)

lemma ParseDnsFrame_not_dns:
  "(\<nexists>sid data. f = FrameDns sid data) \<Longrightarrow> ParseDnsFrame w f req = Returns (Inl ErrDnsMsgIllegal)"
  by (cases f) (simp_all add: ParseDnsFrame_def)

lemma ParseDnsFrame_dns:
  "ParseDnsFrame w (FrameDns sid data) req =
     (case Unpack w data of
        Inl e \<Rightarrow> Returns (Inl ErrDnsMsgIllegal)
      | Inr res \<Rightarrow>
          if \<not> Response res \<or> Id_msg res \<noteq> Id_msg req then Returns (Inl ErrDnsMsgIllegal)
          else if DEBUGDNS w \<and> Question req = [] then Panicked
          else Returns (Inr (address_records (Answer res))))"
  by (cases "Unpack w data") (simp_all add: ParseDnsFrame_def answer_addrs_eq)

text \<open>
  C7. \<^verbatim>\<open>ParseDnsFrame\<close> returns \<^verbatim>\<open>ErrDnsMsgIllegal\<close>, and no other error, unless the frame is
  a DNS frame whose payload unpacks to a message with \<^verbatim>\<open>Response\<close> set and the \<^verbatim>\<open>Id\<close> of the
  request. When it returns addresses, the frame is such a frame and the addresses are
  the A and AAAA records of the answer section, in order, the other records dropped;
  and it does return them for every such frame (but for the panic of the debug log on
  a request without a question).
\<close>

theorem ParseDnsFrame_spec:
  "((\<nexists>sid data res. f = FrameDns sid data \<and> Unpack w data = Inr res
        \<and> Response res \<and> Id_msg res = Id_msg req)
      \<longrightarrow> ParseDnsFrame w f req = Returns (Inl ErrDnsMsgIllegal))
   \<and> (\<forall>addrs. ParseDnsFrame w f req = Returns (Inr addrs) \<longrightarrow>
        (\<exists>sid data res. f = FrameDns sid data \<and> Unpack w data = Inr res
           \<and> Response res \<and> Id_msg res = Id_msg req
           \<and> addrs = address_records (Answer res)))
   \<and> (\<forall>sid data res. f = FrameDns sid data \<and> Unpack w data = Inr res
        \<and> Response res \<and> Id_msg res = Id_msg req \<and> \<not> (DEBUGDNS w \<and> Question req = [])
        \<longrightarrow> ParseDnsFrame w f req = Returns (Inr (address_records (Answer res))))
   \<and> (\<forall>e. ParseDnsFrame w f req = Returns (Inl e) \<longrightarrow> e = ErrDnsMsgIllegal)"
proof (cases "\<exists>sid data. f = FrameDns sid data")
  case False
  then have "ParseDnsFrame w f req = Returns (Inl ErrDnsMsgIllegal)"
    by (simp add: ParseDnsFrame_not_dns)
  then show ?thesis using False by auto
next
  case True
  then obtain sid data where f: "f = FrameDns sid data" by blast
  show ?thesis
  proof (cases "Unpack w data")
    case (Inl e)
    then show ?thesis unfolding f by (simp add: ParseDnsFrame_dns)
  next
    case (Inr res)
    then show ?thesis unfolding f by (simp add: ParseDnsFrame_dns)
  qed
qed

theorem ParseDnsFrame_spec_witness:
  "ParseDnsFrame example_world (FrameDns 1 [1]) (example_msg False)
     = Returns (Inr [[1, 2, 3, 4], [0, 0, 0, 0, 0, 0, 0, 0, 0, 0, 0, 0, 0, 0, 0, 1]])
   \<and> ParseDnsFrame example_world (FrameDns 1 [0]) (example_msg False) = Returns (Inl ErrDnsMsgIllegal)
   \<and> ParseDnsFrame example_world (FrameData 1 [1]) (example_msg False) = Returns (Inl ErrDnsMsgIllegal)"
proof -
  have u: "Unpack example_world [1] = Inr (example_msg True)"
    "Unpack example_world [0] = Inr (example_msg False)"
    "DEBUGDNS example_world = False"
    by (simp_all add: example_world_def)
  have a: "address_records (Answer (example_msg True))
      = [[1, 2, 3, 4], [0, 0, 0, 0, 0, 0, 0, 0, 0, 0, 0, 0, 0, 0, 0, 1]]"
    by (simp add: example_msg_def address_records_def)
  have r: "Response (example_msg True)" "\<not> Response (example_msg False)"
    "Id_msg (example_msg True) = Id_msg (example_msg False)"
    by (simp_all add: example_msg_def)
  have "ParseDnsFrame example_world (FrameDns 1 [1]) (example_msg False)
      = Returns (Inr (address_records (Answer (example_msg True))))"
    using ParseDnsFrame_spec [of "FrameDns 1 [1]" example_world "example_msg False"] u r
    by blast
  moreover have "ParseDnsFrame example_world (FrameDns 1 [0]) (example_msg False)
      = Returns (Inl ErrDnsMsgIllegal)"
    using ParseDnsFrame_spec [of "FrameDns 1 [0]" example_world "example_msg False"] u r
    by (metis Frame.inject(8) sum.inject(2))
  moreover have "ParseDnsFrame example_world (FrameData 1 [1]) (example_msg False)
      = Returns (Inl ErrDnsMsgIllegal)"
    using ParseDnsFrame_spec [of "FrameData 1 [1]" example_world "example_msg False"]
    by simp
  ultimately show ?thesis using a by simp
qed

subsection \<open>A tunnelled lookup gives its streamid back\<close>

lemma SendFrame_keeps:
  "ports (snd (SendFrame w f s)) = ports s \<and> plock (snd (SendFrame w f s)) = plock s
   \<and> next_id (snd (SendFrame w f s)) = next_id s \<and> closed (snd (SendFrame w f s)) = closed s"
  by (simp add: SendFrame_def Let_def split: sum.splits prod.splits option.splits)

lemma ParseDnsFrame_made_request:
  "ParseDnsFrame w f (fst (MakeDnsFrame w host t sid)) \<noteq> Panicked
   \<and> ParseDnsFrame w f (fst (MakeDnsFrame w host t sid)) \<noteq> Blocked"
proof (cases "\<exists>i d. f = FrameDns i d")
  case False
  then show ?thesis by (simp add: ParseDnsFrame_not_dns)
next
  case True
  then obtain i d where "f = FrameDns i d" by blast
  moreover have "Question (fst (MakeDnsFrame w host t sid)) \<noteq> []"
    by (simp add: MakeDnsFrame_def Let_def split: sum.splits)
  ultimately show ?thesis by (simp add: ParseDnsFrame_dns split: sum.splits)
qed

lemma LookupIP_body_returns:
  "\<exists>r s'. LookupIP_body w host sid s = Returns (r, s') \<and> ports s' = ports s
      \<and> plock s' = plock s \<and> next_id s' = next_id s"
proof (cases "MakeDnsFrame w host TypeA sid")
  case (Pair req fe)
  then have req: "req = fst (MakeDnsFrame w host TypeA sid)" by simp
  show ?thesis
  proof (cases fe)
    case (Inl e)
    then show ?thesis using Pair by (simp add: LookupIP_body_def)
  next
    case (Inr freq)
    obtain err s1 where send: "SendFrame w freq s = (err, s1)" by (cases "SendFrame w freq s")
    then have keeps: "ports s1 = ports s" "plock s1 = plock s" "next_id s1 = next_id s"
      using SendFrame_keeps [of w freq s] by simp_all
    show ?thesis
    proof (cases err)
      case (Some e)
      then show ?thesis using Pair Inr send keeps by (simp add: LookupIP_body_def)
    next
      case None
      show ?thesis
      proof (cases "RecvWithTimeout w")
        case (Inl e)
        then show ?thesis using Pair Inr send None keeps by (simp add: LookupIP_body_def)
      next
        case recv: (Inr fres)
        have "ParseDnsFrame w fres req \<noteq> Panicked" "ParseDnsFrame w fres req \<noteq> Blocked"
          unfolding req using ParseDnsFrame_made_request by simp_all
        then obtain r where "ParseDnsFrame w fres req = Returns r"
          by (cases "ParseDnsFrame w fres req") simp_all
        then show ?thesis using Pair Inr send None recv keeps by (simp add: LookupIP_body_def)
      qed
    qed
  qed
qed

lemma RemovePort_present:
  assumes "\<not> plock s" "ports s i \<noteq> None"
  shows "RemovePort i s = Returns (None, s\<lparr>ports := (ports s)(i := None)\<rparr>)"
  using assms by (auto simp: RemovePort_def)

text \<open>
  C9. A tunnelled lookup (the host is no literal IP) on a session with a free mutex and
  a free streamid: \<^verbatim>\<open>PutIntoNextId\<close> stores the one-shot channel under a streamid, and
  whatever the world does then (\<^verbatim>\<open>Pack\<close> or the write fails, the wait times out, the
  response is malformed, or the lookup succeeds) \<^verbatim>\<open>LookupIP\<close> returns, with that streamid
  no longer in the port table and the table as it was before the call.
\<close>

theorem LookupIP_removes_its_port:
  assumes "ParseIP w host = None" "\<not> plock s" "\<exists>i. ports s i = None"
  shows "\<exists>sid s1 r s'. PutIntoNextId FsChan s = Returns (Inr sid, s1)
      \<and> ports s1 sid = Some FsChan
      \<and> LookupIP w host s = Returns (r, s')
      \<and> ports s' sid = None \<and> ports s' = ports s \<and> \<not> plock s'"
proof -
  from assms(3) have "scan (ports s) (next_id s) (next_id s) \<noteq> None"
    by (simp add: scan_full_circle)
  then obtain sid where sid: "scan (ports s) (next_id s) (next_id s) = Some sid" by blast
  then have free: "ports s sid = None" by (rule scan_Some_free)
  define s1 where "s1 = s\<lparr>next_id := sid + 2, ports := (ports s)(sid \<mapsto> FsChan)\<rparr>"
  have put: "PutIntoNextId FsChan s = Returns (Inr sid, s1)"
    using sid assms(2) by (simp add: PutIntoNextId_def s1_def)
  obtain r s2 where body: "LookupIP_body w host sid s1 = Returns (r, s2)"
    and keeps: "ports s2 = ports s1" "plock s2 = plock s1"
    using LookupIP_body_returns [of w host sid s1] by blast
  have "\<not> plock s2" "ports s2 sid \<noteq> None"
    using keeps assms(2) by (simp_all add: s1_def)
  then have rem: "RemovePort sid s2 = Returns (None, s2\<lparr>ports := (ports s2)(sid := None)\<rparr>)"
    by (rule RemovePort_present)
  have look: "LookupIP w host s = Returns (r, s2\<lparr>ports := (ports s2)(sid := None)\<rparr>)"
    using assms(1) put body rem by (simp add: LookupIP_def LookupIP_deferred_def)
  have "(ports s2)(sid := None) = ports s"
    using keeps(1) free by (auto simp: s1_def)
  then show ?thesis using put look \<open>\<not> plock s2\<close> free by (simp add: s1_def)
qed

lemma LookupIP_table_full:
  assumes "ParseIP w host = None" "\<not> plock s" "\<forall>i. ports s i \<noteq> None"
  shows "LookupIP w host s = Returns (Inl ErrRunOutOfStreamId, s\<lparr>plock := True\<rparr>)"
proof -
  from assms(3) have "scan (ports s) (next_id s) (next_id s) = None"
    by (simp add: scan_full_circle)
  then show ?thesis using assms(1,2) by (simp add: LookupIP_def PutIntoNextId_def)
qed

lemmas LookupIP_eval =
  LookupIP_def LookupIP_body_def LookupIP_deferred_def PutIntoNextId_def RemovePort_def
  MakeDnsFrame_def SendFrame_def ParseDnsFrame_def NewSession_def example_world_def
  example_msg_def scan.simps TypeA_def

theorem LookupIP_removes_its_port_witness:
  "ParseIP example_world ''example.test'' = None
   \<and> \<not> plock (NewSession 1)
   \<and> (\<exists>i. ports (NewSession 1) i = None)
   \<and> LookupIP example_world ''example.test'' (NewSession 1) =
       Returns (Inr [[1, 2, 3, 4], [0, 0, 0, 0, 0, 0, 0, 0, 0, 0, 0, 0, 0, 0, 0, 1]],
                (NewSession 1)\<lparr>next_id := 3, wire := [FrameDns 1 [0]]\<rparr>)"
  using LookupIP_removes_its_port [of example_world "''example.test''" "NewSession 1"]
  by (simp add: LookupIP_eval)

text \<open>The other exit paths of the same lookup, evaluated: timeout, failed write, malformed response.\<close>

lemma LookupIP_timeout_example:
  "LookupIP (example_world\<lparr>RecvWithTimeout := Inl (ErrOther ''timeout'')\<rparr>) ''example.test''
      ((NewSession 1)\<lparr>ports := [1 \<mapsto> FsConn (NewConn 1 ''tcp'' ''a:80'')]\<rparr>) =
     Returns (Inl (ErrOther ''timeout''),
              (NewSession 1)\<lparr>ports := [1 \<mapsto> FsConn (NewConn 1 ''tcp'' ''a:80'')],
                next_id := 4, wire := [FrameDns 2 [0]]\<rparr>)"
  by (simp add: LookupIP_eval fun_upd_twist)

lemma LookupIP_send_failure_example:
  "LookupIP (example_world\<lparr>Write := (\<lambda>log b. (0, Some (ErrOther ''broken pipe'')))\<rparr>)
      ''example.test'' (NewSession 1) =
     Returns (Inl (ErrOther ''broken pipe''),
              (NewSession 1)\<lparr>next_id := 3, wire := [FrameDns 1 [0]]\<rparr>)"
  by (simp add: LookupIP_eval)

lemma LookupIP_malformed_example:
  "LookupIP (example_world\<lparr>RecvWithTimeout := Inr (FrameDns 1 [])\<rparr>) ''example.test''
      (NewSession 1) =
     Returns (Inl ErrDnsMsgIllegal, (NewSession 1)\<lparr>next_id := 3, wire := [FrameDns 1 [0]]\<rparr>)"
  by (simp add: LookupIP_eval)

section \<open>Listing the streams\<close>

subsection \<open>The sorted list of streams\<close>

lemma GetPorts_set:
  assumes "set ks = dom (ports s)"
  shows "set (concat (map (\<lambda>k. case ports s k of Some (FsConn c) \<Rightarrow> [c] | _ \<Rightarrow> []) ks))
    = {c. \<exists>k. ports s k = Some (FsConn c)}"
proof -
  have "set (concat (map (\<lambda>k. case ports s k of Some (FsConn c) \<Rightarrow> [c] | _ \<Rightarrow> []) ks))
      = {c. \<exists>k \<in> set ks. ports s k = Some (FsConn c)}"
    by (induction ks) (auto split: option.splits FrameSender.splits)
  also have "\<dots> = {c. \<exists>k. ports s k = Some (FsConn c)}"
    using assms by auto
  finally show ?thesis .
qed

lemma GetPorts_streamids:
  assumes "streamids_match s"
  shows "map streamid (concat (map (\<lambda>k. case ports s k of Some (FsConn c) \<Rightarrow> [c] | _ \<Rightarrow> []) ks))
    = filter (\<lambda>k. \<exists>c. ports s k = Some (FsConn c)) ks"
  using assms
  by (induction ks) (auto simp: streamids_match_def split: option.splits FrameSender.splits)

lemma GetSortedPorts_sorted:
  assumes "\<not> plock s"
  shows "\<exists>cs ps. GetPorts ks s = Returns ps \<and> GetSortedPorts ks s = Returns cs
    \<and> mset cs = mset ps \<and> sorted (map streamid cs)"
  using assms by (simp add: GetSortedPorts_def GetPorts_def)

lemma GetPorts_length:
  assumes "distinct ks" "set ks = dom (ports s)"
  shows "length (concat (map (\<lambda>k. case ports s k of Some (FsConn c) \<Rightarrow> [c] | _ \<Rightarrow> []) ks))
    = card {k. \<exists>c. ports s k = Some (FsConn c)}"
proof -
  have "length (concat (map (\<lambda>k. case ports s k of Some (FsConn c) \<Rightarrow> [c] | _ \<Rightarrow> []) ks))
      = length (filter (\<lambda>k. \<exists>c. ports s k = Some (FsConn c)) ks)"
    by (induction ks) (auto split: option.splits FrameSender.splits)
  also have "\<dots> = card (set (filter (\<lambda>k. \<exists>c. ports s k = Some (FsConn c)) ks))"
    using distinct_card [of "filter (\<lambda>k. \<exists>c. ports s k = Some (FsConn c)) ks"] assms(1)
    by (simp del: set_filter)
  also have "set (filter (\<lambda>k. \<exists>c. ports s k = Some (FsConn c)) ks)
      = {k. \<exists>c. ports s k = Some (FsConn c)}"
    using assms(2) by auto
  finally show ?thesis .
qed

text \<open>
  C10. With the mutex free and \<open>ks\<close> the order in which Go visits the keys of the map,
  \<^verbatim>\<open>GetSortedPorts\<close> returns exactly the streams of the port table, one for each key that
  holds a stream and none for any other entry, in ascending order of the streams'
  \<^verbatim>\<open>streamid\<close>; the order is strict on a session whose streams are stored under their own
  \<^verbatim>\<open>streamid\<close>, as \<^verbatim>\<open>on_syn\<close> and \<^verbatim>\<open>Dial\<close> store them.
\<close>

theorem GetSortedPorts_spec:
  assumes "\<not> plock s" "distinct ks" "set ks = dom (ports s)"
  shows "\<exists>cs. GetSortedPorts ks s = Returns cs
      \<and> set cs = {c. \<exists>k. ports s k = Some (FsConn c)}
      \<and> length cs = card {k. \<exists>c. ports s k = Some (FsConn c)}
      \<and> sorted (map streamid cs)
      \<and> (streamids_match s \<longrightarrow> sorted_wrt (<) (map streamid cs))"
proof -
  define ps where "ps = concat (map (\<lambda>k. case ports s k of Some (FsConn c) \<Rightarrow> [c] | _ \<Rightarrow> []) ks)"
  have res: "GetSortedPorts ks s = Returns (sort_key streamid ps)"
    using assms(1) by (simp add: GetSortedPorts_def GetPorts_def ps_def)
  have set: "set (sort_key streamid ps) = {c. \<exists>k. ports s k = Some (FsConn c)}"
    using GetPorts_set [OF assms(3)] by (simp add: ps_def)
  have len: "length (sort_key streamid ps) = card {k. \<exists>c. ports s k = Some (FsConn c)}"
    using GetPorts_length [OF assms(2,3)] by (simp add: ps_def)
  have asc: "sorted (map streamid (sort_key streamid ps))"
    by simp
  have strict: "sorted_wrt (<) (map streamid (sort_key streamid ps))" if own: "streamids_match s"
  proof -
    have "distinct (map streamid ps)"
      using GetPorts_streamids [OF own, of ks] assms(2) by (simp add: ps_def)
    moreover have "mset (map streamid (sort_key streamid ps)) = mset (map streamid ps)"
      by simp
    ultimately have "distinct (map streamid (sort_key streamid ps))"
      by (metis mset_eq_imp_distinct_iff)
    then show ?thesis using asc by (simp add: strict_sorted_iff)
  qed
  show ?thesis using res set len asc strict by blast
qed

theorem GetSortedPorts_spec_witness:
  "distinct [9, 4, 2, 7 :: uint16]
   \<and> set [9, 4, 2, 7] = dom (ports ((NewSession 1)\<lparr>ports :=
        [2 \<mapsto> FsConn (NewConn 2 ''tcp'' ''b:80''), 4 \<mapsto> FsChan,
         7 \<mapsto> FsConn (NewConn 7 ''tcp'' ''a:80''), 9 \<mapsto> FsConn (NewConn 9 ''tcp'' ''c:80'')]\<rparr>))
   \<and> GetSortedPorts [9, 4, 2, 7] ((NewSession 1)\<lparr>ports :=
        [2 \<mapsto> FsConn (NewConn 2 ''tcp'' ''b:80''), 4 \<mapsto> FsChan,
         7 \<mapsto> FsConn (NewConn 7 ''tcp'' ''a:80''), 9 \<mapsto> FsConn (NewConn 9 ''tcp'' ''c:80'')]\<rparr>)
     = Returns [NewConn 2 ''tcp'' ''b:80'', NewConn 7 ''tcp'' ''a:80'', NewConn 9 ''tcp'' ''c:80'']
   \<and> sorted_wrt (<) (map streamid
        [NewConn 2 ''tcp'' ''b:80'', NewConn 7 ''tcp'' ''a:80'', NewConn 9 ''tcp'' ''c:80''])"
proof -
  let ?s = "(NewSession 1)\<lparr>ports :=
        [2 \<mapsto> FsConn (NewConn 2 ''tcp'' ''b:80''), 4 \<mapsto> FsChan,
         7 \<mapsto> FsConn (NewConn 7 ''tcp'' ''a:80''), 9 \<mapsto> FsConn (NewConn 9 ''tcp'' ''c:80'')]\<rparr>"
  have free: "\<not> plock ?s" by (simp add: NewSession_def)
  have dist: "distinct [9, 4, 2, 7 :: uint16]" by simp
  have keys: "set [9, 4, 2, 7] = dom (ports ?s)" by (auto simp: NewSession_def)
  have own: "streamids_match ?s"
    by (simp add: streamids_match_def NewSession_def NewConn_def)
  have val: "GetSortedPorts [9, 4, 2, 7] ?s
      = Returns [NewConn 2 ''tcp'' ''b:80'', NewConn 7 ''tcp'' ''a:80'', NewConn 9 ''tcp'' ''c:80'']"
    by (simp add: GetSortedPorts_def GetPorts_def NewSession_def NewConn_def)
  from GetSortedPorts_spec [OF free dist keys] own val
  have "sorted_wrt (<) (map streamid
        [NewConn 2 ''tcp'' ''b:80'', NewConn 7 ''tcp'' ''a:80'', NewConn 9 ''tcp'' ''c:80''])"
    by simp
  then show ?thesis using dist keys val by blast
qed

subsection \<open>Streams are stored under their own streamid\<close>

lemma streamids_match_NewSession: "streamids_match (NewSession n)"
  by (simp add: streamids_match_def NewSession_def)

lemma streamids_match_on_syn:
  assumes "streamids_match s" "on_syn w i n a s = Returns (r, s')"
  shows "streamids_match s'"
proof -
  have keep: "ports (snd (SendFrame w f t)) = ports t" for f t
    by (simp add: SendFrame_def Let_def split: sum.splits prod.splits option.splits)
  show ?thesis
  proof (cases "plock s")
    case True
    then show ?thesis using assms(2)
      by (simp add: on_syn_def CheckAndSetStatus_def NewConn_def PutIntoId_def)
  next
    case free: False
    show ?thesis
    proof (cases "ports s i = None")
      case True
      then have "s' = s\<lparr>ports := (ports s)(i \<mapsto> FsConn ((NewConn i n a)\<lparr>status := ST_SYN_RECV\<rparr>))\<rparr>"
        using assms(2) free
        by (simp add: on_syn_def CheckAndSetStatus_def NewConn_def PutIntoId_def)
      then show ?thesis using assms(1) by (simp add: streamids_match_def NewConn_def)
    next
      case False
      then have "s' = snd (SendFrame w (FrameResult i ERR_IDEXIST) (s\<lparr>plock := True\<rparr>))"
        using assms(2) free
        by (auto simp: on_syn_def CheckAndSetStatus_def NewConn_def PutIntoId_def)
      then have "ports s' = ports s" using keep by simp
      then show ?thesis using assms(1) by (simp add: streamids_match_def)
    qed
  qed
qed

lemma streamids_match_RemovePort:
  assumes "streamids_match s" "RemovePort i s = Returns (r, s')"
  shows "streamids_match s'"
  using assms by (auto simp: RemovePort_def streamids_match_def split: if_splits)

lemma streamids_match_Dial:
  assumes "streamids_match s"
    and "\<And>c t r t'. streamids_match t \<Longrightarrow> SendSynAndWait w c t = Returns (r, t') \<Longrightarrow> streamids_match t'"
    and "Dial w n a s = Returns (r, s')"
  shows "streamids_match s'"
proof (cases "PutIntoNextId (FsConn (NewConn 0 n a)) s")
  case Blocked
  then show ?thesis using assms(3) by (simp add: Dial_def)
next
  case Panicked
  then show ?thesis using assms(3) by (simp add: Dial_def)
next
  case (Returns p)
  obtain res s1 where p: "p = (res, s1)" by (cases p)
  show ?thesis
  proof (cases res)
    case (Inl e)
    then have "s' = s1" using assms(3) Returns p by (simp add: Dial_def)
    moreover have "ports s1 = ports s"
      using Returns p Inl by (auto simp: PutIntoNextId_def split: if_splits option.splits)
    ultimately show ?thesis using assms(1) by (simp add: streamids_match_def)
  next
    case (Inr sid)
    define c where "c = (NewConn 0 n a)\<lparr>streamid := sid\<rparr>"
    define s2 where "s2 = s1\<lparr>ports := (ports s1)(sid \<mapsto> FsConn c)\<rparr>"
    have "ports s1 = (ports s)(sid \<mapsto> FsConn (NewConn 0 n a))"
      using Returns p Inr by (auto simp: PutIntoNextId_def split: if_splits option.splits)
    then have "streamids_match s2"
      using assms(1) by (simp add: s2_def c_def streamids_match_def)
    moreover obtain r3 where "SendSynAndWait w c s2 = Returns (r3, s')"
      using assms(3) Returns p Inr
      by (auto simp: Dial_def Let_def c_def s2_def split: outcome.splits option.splits)
    ultimately show ?thesis using assms(2) by blast
  qed
qed

section \<open>How a client session comes to hand out an even id\<close>

text \<open>
  The session of C1 is one that a client reaches by itself. It dials one stream, which
  gets id 1 and stays open, and makes 32767 tunnelled lookups, each of which takes the
  next odd id and gives it back; \<^verbatim>\<open>next_id\<close> is then at 1 again, where the stream still
  sits, and the next allocation scans on to 2.
\<close>

lemma LookupIP_free_slot:
  assumes "ParseIP w host = None" "\<not> plock s" "ports s (next_id s) = None"
  shows "\<exists>r s'. LookupIP w host s = Returns (r, s') \<and> ports s' = ports s \<and> \<not> plock s'
    \<and> next_id s' = next_id s + 2"
proof -
  define s1 where "s1 = s\<lparr>next_id := next_id s + 2, ports := (ports s)(next_id s \<mapsto> FsChan)\<rparr>"
  have put: "PutIntoNextId FsChan s = Returns (Inr (next_id s), s1)"
    using assms(2,3) by (simp add: PutIntoNextId_free s1_def)
  obtain r s2 where body: "LookupIP_body w host (next_id s) s1 = Returns (r, s2)"
    and keeps: "ports s2 = ports s1" "plock s2 = plock s1" "next_id s2 = next_id s1"
    using LookupIP_body_returns [of w host "next_id s" s1] by blast
  have "\<not> plock s2" "ports s2 (next_id s) \<noteq> None"
    using keeps assms(2) by (simp_all add: s1_def)
  then have rem: "RemovePort (next_id s) s2
      = Returns (None, s2\<lparr>ports := (ports s2)(next_id s := None)\<rparr>)"
    by (rule RemovePort_present)
  have look: "LookupIP w host s = Returns (r, s2\<lparr>ports := (ports s2)(next_id s := None)\<rparr>)"
    using assms(1) put body rem by (simp add: LookupIP_def LookupIP_deferred_def)
  have "(ports s2)(next_id s := None) = ports s"
    using keeps(1) assms(3) by (auto simp: s1_def)
  then show ?thesis using look \<open>\<not> plock s2\<close> keeps(3) by (simp add: s1_def)
qed

lemma odd_id_not_back_yet:
  assumes "k < 32767"
  shows "(3 + 2 * of_nat k :: uint16) \<noteq> 1"
proof -
  have "unat (3 + 2 * of_nat k :: uint16) = 3 + 2 * k"
    using assms by (intro of_nat_inverse) simp_all
  then have "unat (3 + 2 * of_nat k :: uint16) \<noteq> unat (1 :: uint16)"
    by simp
  then show ?thesis by metis
qed

lemma lookups_advance:
  assumes "ParseIP w host = None" "\<not> plock s" "\<forall>i. i \<noteq> 1 \<longrightarrow> ports s i = None"
    "next_id s = 3 + 2 * of_nat j" "j + k \<le> 32767"
  shows "\<exists>s'. lookups w host k s = Returns s' \<and> ports s' = ports s \<and> \<not> plock s'
    \<and> next_id s' = 3 + 2 * of_nat (j + k)"
  using assms
proof (induction k arbitrary: s j)
  case 0
  then show ?case by simp
next
  case (Suc k)
  have "j < 32767" using Suc.prems(5) by simp
  then have "next_id s \<noteq> 1" using Suc.prems(4) by (simp add: odd_id_not_back_yet)
  then have "ports s (next_id s) = None" using Suc.prems(3) by simp
  then obtain r s1 where look: "LookupIP w host s = Returns (r, s1)"
    and s1: "ports s1 = ports s" "\<not> plock s1" "next_id s1 = next_id s + 2"
    using LookupIP_free_slot [OF Suc.prems(1,2)] by blast
  have "next_id s1 = 3 + 2 * of_nat (Suc j)" using s1(3) Suc.prems(4) by simp
  moreover have "Suc j + k \<le> 32767" using Suc.prems(5) by simp
  moreover have "\<forall>i. i \<noteq> 1 \<longrightarrow> ports s1 i = None" using s1(1) Suc.prems(3) by simp
  ultimately obtain s' where "lookups w host k s1 = Returns s'" "ports s' = ports s1"
    "\<not> plock s'" "next_id s' = 3 + 2 * of_nat (Suc j + k)"
    using Suc.IH [OF Suc.prems(1) s1(2)] by blast
  then show ?case using look s1(1) by simp
qed

lemma parity_flip_reachable:
  assumes "ParseIP w host = None" "SendSynAndWait w = (\<lambda>c s. Returns (None, s))"
  shows "\<exists>c s1 s2 s3. Dial w n a (NewSession 1) = Returns (Inr c, s1) \<and> streamid c = 1
      \<and> lookups w host 32767 s1 = Returns s2
      \<and> next_id s2 = 1 \<and> ports s2 = [1 \<mapsto> FsConn c]
      \<and> PutIntoNextId fs s2 = Returns (Inr 2, s3) \<and> next_id s3 = 4"
proof -
  define c where "c = (NewConn 0 n a)\<lparr>streamid := 1\<rparr>"
  define s1 where "s1 = (NewSession 1)\<lparr>next_id := 3, ports := [1 \<mapsto> FsConn c]\<rparr>"
  have dial: "Dial w n a (NewSession 1) = Returns (Inr c, s1)"
    by (simp add: Dial_def Let_def PutIntoNextId_def scan.simps NewSession_def assms(2) c_def s1_def)
  have "\<exists>s'. lookups w host 32767 s1 = Returns s' \<and> ports s' = ports s1 \<and> \<not> plock s'
      \<and> next_id s' = 3 + 2 * of_nat (0 + 32767)"
    by (rule lookups_advance [OF assms(1)]) (simp_all add: s1_def NewSession_def)
  then obtain s2 where s2: "lookups w host 32767 s1 = Returns s2" "ports s2 = [1 \<mapsto> FsConn c]"
    "\<not> plock s2" "next_id s2 = 1"
    by (auto simp: s1_def)
  have "PutIntoNextId fs s2 = Returns (Inr (next_id s2 + 1),
      s2\<lparr>next_id := next_id s2 + 3, ports := (ports s2)(next_id s2 + 1 \<mapsto> fs)\<rparr>)"
    by (rule PutIntoNextId_skips_one) (simp_all add: s2)
  then show ?thesis using dial s2 by (simp add: c_def)
qed

end
